theory Spec2Isabelle
  imports Complex_Main
begin

section \<open>Data model (src/types.ts)\<close>

text \<open>
  The interfaces of \<^verbatim>\<open>types.ts\<close> become records. Several interfaces share field
  names (\<^verbatim>\<open>subtotal\<close>, \<^verbatim>\<open>items\<close>, ...), so every field carries a one-letter prefix
  for its interface: \<^verbatim>\<open>i_\<close> for ReceiptItem, \<^verbatim>\<open>r_\<close> for ReceiptData, \<^verbatim>\<open>p_\<close> for
  PersonTotal, \<^verbatim>\<open>m_\<close> for ChatMessage. The fields of AssignmentAction and
  ChatResponse keep their names.

  A JavaScript \<^verbatim>\<open>number\<close> is idealised as a real number: arithmetic is exact, and the
  rounding of IEEE doubles is outside this model. The source divides only by a
  positive array length and by a subtotal it has tested to be positive, so the
  value HOL gives to a division by zero is never used by a definition below.
\<close>

record ReceiptItem =
  i_id :: string
  i_name :: string
  i_price :: real
  i_quantity :: real

record ReceiptData =
  r_items :: "ReceiptItem list"
  r_subtotal :: real
  r_tax :: real
  r_tip :: real
  r_total :: real
  r_currency :: string

text \<open>
  \<^verbatim>\<open>interface Assignments { [itemId: string]: string[] }\<close>: a plain object used as a
  dictionary, modelled by the partial map of its own properties. Only lookup and
  update by key are used by the reducer and by the calculator, so the enumeration
  order of the keys is not part of the model; neither are the members an object
  inherits from \<^verbatim>\<open>Object.prototype\<close>, which the index signature leaves out as well.
\<close>

type_synonym Assignments = "string \<rightharpoonup> string list"

record PersonTotal =
  p_name :: string
  p_subtotal :: real
  p_tax :: real
  p_tip :: real
  p_total :: real
  p_items :: "ReceiptItem list"

datatype Action = Assign | Unassign

record AssignmentAction =
  itemIds :: "string list"
  people :: "string list"
  action :: Action

record ChatResponse =
  reply :: string
  assignments :: "AssignmentAction list"

text \<open>The expression \<^verbatim>\<open>assignments[itemId] || []\<close>: an array is truthy even when it is
  empty, so the default is taken exactly when the key is absent.\<close>

definition assigned :: "Assignments \<Rightarrow> string \<Rightarrow> string list" where
  "assigned a itemId = (case a itemId of None \<Rightarrow> [] | Some ps \<Rightarrow> ps)"

section \<open>Settlement calculator (src/components/Summary.tsx, useMemo summary)\<close>

text \<open>
  \<^verbatim>\<open>peopleMap\<close> is a JavaScript \<^verbatim>\<open>Map<string, PersonTotal>\<close>, which iterates in insertion
  order: an association list in which \<^verbatim>\<open>set\<close> on a present key replaces the value in
  place and on an absent key appends. The PersonTotal objects are mutated through
  the reference that \<^verbatim>\<open>get\<close> returns; in the model the changed record is stored back
  under its key, which keeps its position.
\<close>

type_synonym people_map = "(string \<times> PersonTotal) list"

fun map_has :: "people_map \<Rightarrow> string \<Rightarrow> bool" where
  "map_has [] k = False"
| "map_has ((k', v) # m) k = (if k' = k then True else map_has m k)"

fun map_get :: "people_map \<Rightarrow> string \<Rightarrow> PersonTotal option" where
  "map_get [] k = None"
| "map_get ((k', v) # m) k = (if k' = k then Some v else map_get m k)"

fun map_set :: "people_map \<Rightarrow> string \<Rightarrow> PersonTotal \<Rightarrow> people_map" where
  "map_set [] k v = [(k, v)]"
| "map_set ((k', v') # m) k v = (if k' = k then (k, v) # m else (k', v') # map_set m k v)"

definition map_values :: "people_map \<Rightarrow> PersonTotal list" where
  "map_values m = map snd m"

text \<open>The body of \<^verbatim>\<open>assignedTo.forEach(personName => ...)\<close> (lines 31 to 46).\<close>

definition add_person :: "ReceiptItem \<Rightarrow> real \<Rightarrow> people_map \<Rightarrow> string \<Rightarrow> people_map" where
  "add_person item pricePerPerson peopleMap personName =
     (let peopleMap1 =
        (if \<not> map_has peopleMap personName
         then map_set peopleMap personName
                \<lparr>p_name = personName, p_subtotal = 0, p_tax = 0, p_tip = 0, p_total = 0,
                 p_items = []\<rparr>
         else peopleMap)
      in case map_get peopleMap1 personName of
           None \<Rightarrow> peopleMap1
         | Some person \<Rightarrow>
             map_set peopleMap1 personName
               (person\<lparr>p_subtotal := p_subtotal person + pricePerPerson,
                       p_items := p_items person @ [item]\<rparr>))"

text \<open>The body of \<^verbatim>\<open>data.items.forEach(item => ...)\<close> (lines 21 to 47), on the pair of
  \<^verbatim>\<open>peopleMap\<close> and \<^verbatim>\<open>unassignedItems\<close>.\<close>

definition per_item ::
  "Assignments \<Rightarrow> people_map \<times> ReceiptItem list \<Rightarrow> ReceiptItem \<Rightarrow> people_map \<times> ReceiptItem list"
where
  "per_item asg st item =
     (case st of (peopleMap, unassignedItems) \<Rightarrow>
        let assignedTo = assigned asg (i_id item) in
        if length assignedTo = 0 then (peopleMap, unassignedItems @ [item])
        else
          let splitCount = length assignedTo;
              pricePerPerson = i_price item / real splitCount
          in (foldl (add_person item pricePerPerson) peopleMap assignedTo, unassignedItems))"

definition collect :: "ReceiptData \<Rightarrow> Assignments \<Rightarrow> people_map \<times> ReceiptItem list" where
  "collect data asg = foldl (per_item asg) ([], []) (r_items data)"

text \<open>\<^verbatim>\<open>totalAssignedSubtotal\<close> (line 50): computed by the source, used nowhere.\<close>

definition totalAssignedSubtotal :: "people_map \<Rightarrow> real" where
  "totalAssignedSubtotal peopleMap = foldl (\<lambda>acc p. acc + p_subtotal p) 0 (map_values peopleMap)"

text \<open>The function mapped over the people (lines 52 to 60).\<close>

definition distribute :: "ReceiptData \<Rightarrow> PersonTotal \<Rightarrow> PersonTotal" where
  "distribute data person =
     (let ratioOfTotal = (if r_subtotal data > 0 then p_subtotal person / r_subtotal data else 0);
          person1 = person\<lparr>p_tax := r_tax data * ratioOfTotal\<rparr>;
          person2 = person1\<lparr>p_tip := r_tip data * ratioOfTotal\<rparr>
      in person2\<lparr>p_total := p_subtotal person2 + p_tax person2 + p_tip person2\<rparr>)"

record Summary =
  peopleList :: "PersonTotal list"
  unassignedItems :: "ReceiptItem list"

definition summary :: "ReceiptData \<Rightarrow> Assignments \<Rightarrow> Summary" where
  "summary data asg =
     (case collect data asg of (peopleMap, unassigned) \<Rightarrow>
        \<lparr>peopleList = map (distribute data) (map_values peopleMap),
         unassignedItems = unassigned\<rparr>)"

section \<open>Assignment reducer (src/App.tsx, the updater passed to setAssignments)\<close>

text \<open>
  \<^verbatim>\<open>Array.from(new Set(xs))\<close>: a JavaScript Set keeps its members in insertion order
  and ignores a value it already holds, so building it from an array keeps the first
  occurrence of every element. \<open>set_add\<close> is \<^verbatim>\<open>Set.prototype.add\<close> on that ordered
  representation.
\<close>

definition set_add :: "string list \<Rightarrow> string \<Rightarrow> string list" where
  "set_add s x = (if x \<in> set s then s else s @ [x])"

definition new_Set :: "string list \<Rightarrow> string list" where
  "new_Set xs = foldl set_add [] xs"

text \<open>The body of \<^verbatim>\<open>op.itemIds.forEach(itemId => ...)\<close> (lines 87 to 98). The type of
  \<^verbatim>\<open>op.action\<close> has the two values \<^verbatim>\<open>'assign'\<close> and \<^verbatim>\<open>'unassign'\<close>, so the
  \<^verbatim>\<open>if\<close> / \<^verbatim>\<open>else if\<close> of the source is a case distinction.\<close>

definition apply_item :: "AssignmentAction \<Rightarrow> Assignments \<Rightarrow> string \<Rightarrow> Assignments" where
  "apply_item op next itemId =
     (let currentAssignees = assigned next itemId in
      case action op of
        Assign \<Rightarrow> next(itemId \<mapsto> new_Set (currentAssignees @ people op))
      | Unassign \<Rightarrow> next(itemId \<mapsto> filter (\<lambda>p. p \<notin> set (people op)) currentAssignees))"

text \<open>The body of \<^verbatim>\<open>response.assignments.forEach(op => ...)\<close> (lines 86 to 99).\<close>

definition apply_op :: "Assignments \<Rightarrow> AssignmentAction \<Rightarrow> Assignments" where
  "apply_op next op = foldl (apply_item op) next (itemIds op)"

text \<open>The updater \<^verbatim>\<open>prev => { const next = { ...prev }; ...; return next; }\<close>, on the
  contents of the objects.\<close>

definition reducer :: "Assignments \<Rightarrow> AssignmentAction list \<Rightarrow> Assignments" where
  "reducer prev ops = foldl apply_op prev ops"

text \<open>\<^verbatim>\<open>initialAssignments\<close> of \<^verbatim>\<open>handleFileSelect\<close> (lines 38 to 41): one empty array
  for every item of the parsed receipt.\<close>

definition initialAssignments :: "ReceiptItem list \<Rightarrow> Assignments" where
  "initialAssignments its = foldl (\<lambda>a item. a(i_id item \<mapsto> [])) Map.empty its"

subsection \<open>The updater on an object store\<close>







section \<open>Session controller (src/App.tsx, handleSendMessage)\<close>

text \<open>
  The React state of \<^verbatim>\<open>App\<close> is a record, and \<^verbatim>\<open>handleSendMessage\<close> maps the state
  before a command to the state after it. Commands are processed one at a time.
  Two things come from outside and are parameters: \<open>now i\<close> is the value of the
  \<open>i\<close>-th call of \<^verbatim>\<open>Date.now()\<close> during the command, and \<open>outcome\<close> is what
  \<^verbatim>\<open>await processChatCommand(...)\<close> produced, \<open>Inl\<close> for a rejected promise (the
  \<^verbatim>\<open>catch\<close> branch) and \<open>Inr\<close> for a response. The arguments of that external call
  do not influence the state other than through its outcome and are left out.
\<close>

datatype Role = User | Assistant

record ChatMessage =
  m_id :: string
  m_role :: Role
  m_text :: string
  m_timestamp :: nat

datatype error = Error string

record AppState =
  s_receiptData :: "ReceiptData option"
  s_assignments :: Assignments
  s_messages :: "ChatMessage list"
  s_isProcessing :: bool
  s_isParsing :: bool

text \<open>\<^verbatim>\<open>Number.prototype.toString\<close> on a non-negative integer: its decimal digits.\<close>

fun toString :: "nat \<Rightarrow> string" where
  "toString n =
     (if n < 10 then [char_of (48 + n)]
      else toString (n div 10) @ [char_of (48 + n mod 10)])"

definition apology :: string where
  "apology = ''Sorry, I had trouble understanding that. Could you try rephrasing?''"

definition handleSendMessage ::
  "(nat \<Rightarrow> nat) \<Rightarrow> error + ChatResponse \<Rightarrow> AppState \<Rightarrow> string \<Rightarrow> AppState" where
  "handleSendMessage now outcome s txt =
     (case s_receiptData s of
        None \<Rightarrow> s
      | Some receipt \<Rightarrow>
          let userMsg = \<lparr>m_id = toString (now 0), m_role = User, m_text = txt,
                         m_timestamp = now 1\<rparr>;
              s1 = s\<lparr>s_messages := s_messages s @ [userMsg], s_isProcessing := True\<rparr>;
              s2 = (case outcome of
                      Inr response \<Rightarrow>
                        let s' = s1\<lparr>s_assignments :=
                                      reducer (s_assignments s1) (assignments response)\<rparr>;
                            assistantMsg = \<lparr>m_id = toString (now 2 + 1), m_role = Assistant,
                                            m_text = reply response, m_timestamp = now 3\<rparr>
                        in s'\<lparr>s_messages := s_messages s' @ [assistantMsg]\<rparr>
                    | Inl err \<Rightarrow>
                        let errorMsg = \<lparr>m_id = toString (now 2 + 1), m_role = Assistant,
                                        m_text = apology, m_timestamp = now 3\<rparr>
                        in s1\<lparr>s_messages := s_messages s1 @ [errorMsg]\<rparr>)
          in s2\<lparr>s_isProcessing := False\<rparr>)"

section \<open>The specification's reading of the reducer\<close>

text \<open>
  The specification asks for the union in insertion order: the people already
  assigned keep their relative order, the new people follow in the order given, and
  duplicates collapse. \<open>keep_first\<close> keeps the first occurrence of every name;
  \<open>ordered_union\<close> is the union so described, written without reference to the code.
\<close>

primrec keep_first :: "string list \<Rightarrow> string list" where
  "keep_first [] = []"
| "keep_first (x # xs) = x # filter (\<lambda>y. y \<noteq> x) (keep_first xs)"

definition ordered_union :: "string list \<Rightarrow> string list \<Rightarrow> string list" where
  "ordered_union current ppl =
     keep_first current @ keep_first (filter (\<lambda>p. p \<notin> set current) ppl)"

section \<open>Notions used in the statements\<close>

text \<open>The subtotal a name has in \<^verbatim>\<open>peopleMap\<close>, zero for a name without an entry.\<close>

definition subtotal_of :: "people_map \<Rightarrow> string \<Rightarrow> real" where
  "subtotal_of m k = (case map_get m k of None \<Rightarrow> 0 | Some p \<Rightarrow> p_subtotal p)"



text \<open>What one action does to the list of one of its items.\<close>

definition change :: "AssignmentAction \<Rightarrow> string list \<Rightarrow> string list" where
  "change op cur =
     (case action op of
        Assign \<Rightarrow> new_Set (cur @ people op)
      | Unassign \<Rightarrow> filter (\<lambda>p. p \<notin> set (people op)) cur)"

section \<open>Concrete receipts, assignments and sessions\<close>

definition burger :: ReceiptItem where
  "burger = \<lparr>i_id = ''1'', i_name = ''Burger'', i_price = 10, i_quantity = 1\<rparr>"

definition fries :: ReceiptItem where
  "fries = \<lparr>i_id = ''2'', i_name = ''Fries'', i_price = 6, i_quantity = 1\<rparr>"

definition scenario_receipt :: ReceiptData where
  "scenario_receipt =
     \<lparr>r_items = [burger, fries], r_subtotal = 16, r_tax = 1.6, r_tip = 3.2, r_total = 20.8,
      r_currency = ''$''\<rparr>"

definition scenario_assignments :: Assignments where
  "scenario_assignments = [''1'' \<mapsto> [''Tom''], ''2'' \<mapsto> [''Tom'', ''Ana'']]"



definition zero_subtotal_receipt :: ReceiptData where
  "zero_subtotal_receipt = scenario_receipt\<lparr>r_subtotal := 0\<rparr>"





definition tom_degenerate :: PersonTotal where
  "tom_degenerate = \<lparr>p_name = ''Tom'', p_subtotal = 13, p_tax = 0, p_tip = 0, p_total = 13,
     p_items = [burger, fries]\<rparr>"





definition session0 :: AppState where
  "session0 = \<lparr>s_receiptData = Some scenario_receipt, s_assignments = scenario_assignments,
     s_messages = [], s_isProcessing = False, s_isParsing = False\<rparr>"

section \<open>Lemmas\<close>

subsection \<open>The people map\<close>

lemma map_has_get: "map_has m k = (map_get m k \<noteq> None)"
  by (induction m) (auto split: if_splits)

lemma map_set_absent: "map_get m k = None \<Longrightarrow> map_set m k v = m @ [(k, v)]"
  by (induction m) (auto split: if_splits)

lemma map_get_set: "map_get (map_set m k v) k' = (if k' = k then Some v else map_get m k')"
  by (induction m) auto



lemma total_sum: "foldl (\<lambda>acc p. acc + p_subtotal p) a ps = a + sum_list (map p_subtotal ps)"
  by (induction ps arbitrary: a) auto

lemma totalAssignedSubtotal_sum:
  "totalAssignedSubtotal m = sum_list (map (\<lambda>e. p_subtotal (snd e)) m)"
  by (simp add: totalAssignedSubtotal_def map_values_def total_sum comp_def)

lemma sum_map_set:
  "map_get m k = Some v \<Longrightarrow>
   sum_list (map (\<lambda>e. p_subtotal (snd e)) (map_set m k v')) =
   sum_list (map (\<lambda>e. p_subtotal (snd e)) m) - p_subtotal v + p_subtotal v'"
  by (induction m) (auto split: if_splits)

lemma add_person_get:
  "map_get (add_person item x m k) k' =
     (if k' = k
      then Some ((case map_get m k of
                    None \<Rightarrow> \<lparr>p_name = k, p_subtotal = 0, p_tax = 0, p_tip = 0, p_total = 0, p_items = []\<rparr>
                  | Some p \<Rightarrow> p)
                 \<lparr>p_subtotal := p_subtotal (case map_get m k of
                    None \<Rightarrow> \<lparr>p_name = k, p_subtotal = 0, p_tax = 0, p_tip = 0, p_total = 0, p_items = []\<rparr>
                  | Some p \<Rightarrow> p) + x,
                  p_items := p_items (case map_get m k of
                    None \<Rightarrow> \<lparr>p_name = k, p_subtotal = 0, p_tax = 0, p_tip = 0, p_total = 0, p_items = []\<rparr>
                  | Some p \<Rightarrow> p) @ [item]\<rparr>)
      else map_get m k')"
  by (auto simp: add_person_def map_has_get map_get_set Let_def split: option.splits)

lemma add_person_subtotal_of:
  "subtotal_of (add_person item x m k) k' = subtotal_of m k' + (if k' = k then x else 0)"
  by (auto simp: subtotal_of_def add_person_get split: option.splits)

lemma add_person_total:
  "totalAssignedSubtotal (add_person item x m k) = totalAssignedSubtotal m + x"
proof (cases "map_get m k")
  case None
  let ?z = "\<lparr>p_name = k, p_subtotal = 0, p_tax = 0, p_tip = 0, p_total = 0, p_items = []\<rparr>"
  have g: "map_get (map_set m k ?z) k = Some ?z"
    by (simp add: map_get_set)
  have "add_person item x m k =
          map_set (map_set m k ?z) k (?z\<lparr>p_subtotal := p_subtotal ?z + x, p_items := p_items ?z @ [item]\<rparr>)"
    using None by (simp add: add_person_def map_has_get g)
  moreover have "sum_list (map (\<lambda>e. p_subtotal (snd e)) (map_set m k ?z)) =
      sum_list (map (\<lambda>e. p_subtotal (snd e)) m)"
    using None by (simp add: map_set_absent)
  ultimately show ?thesis
    using sum_map_set [OF g, of "?z\<lparr>p_subtotal := p_subtotal ?z + x, p_items := p_items ?z @ [item]\<rparr>"]
    by (simp only: totalAssignedSubtotal_sum) simp
next
  case (Some p)
  then have "add_person item x m k =
          map_set m k (p\<lparr>p_subtotal := p_subtotal p + x, p_items := p_items p @ [item]\<rparr>)"
    by (simp add: add_person_def map_has_get)
  then show ?thesis
    by (simp add: totalAssignedSubtotal_sum sum_map_set [OF Some])
qed

lemma foldl_add_person_subtotal_of:
  "subtotal_of (foldl (add_person item x) m ps) k =
     subtotal_of m k + real (count_list ps k) * x"
  by (induction ps arbitrary: m) (auto simp: add_person_subtotal_of algebra_simps)

lemma foldl_add_person_total:
  "totalAssignedSubtotal (foldl (add_person item x) m ps) =
     totalAssignedSubtotal m + real (length ps) * x"
  by (induction ps arbitrary: m) (auto simp: add_person_total algebra_simps)

subsection \<open>The loop over the items\<close>

lemma per_item_unassigned:
  "assigned asg (i_id item) = [] \<Longrightarrow> per_item asg (m, un) item = (m, un @ [item])"
  by (simp add: per_item_def)

lemma per_item_assigned:
  "assigned asg (i_id item) \<noteq> [] \<Longrightarrow>
   per_item asg (m, un) item =
     (foldl (add_person item (i_price item / real (length (assigned asg (i_id item))))) m
        (assigned asg (i_id item)), un)"
  by (simp add: per_item_def Let_def)






lemma total_foldl_per_item:
  "totalAssignedSubtotal (fst (foldl (per_item asg) (m, un) its)) =
   totalAssignedSubtotal m +
   sum_list (map i_price (filter (\<lambda>it. assigned asg (i_id it) \<noteq> []) its))"
  by (induction its arbitrary: m un)
     (simp_all add: per_item_unassigned per_item_assigned foldl_add_person_total)









lemma distribute_fields:
  "p_name (distribute data p) = p_name p"
  "p_subtotal (distribute data p) = p_subtotal p"
  "p_items (distribute data p) = p_items p"
  "p_tax (distribute data p) =
     r_tax data * (if r_subtotal data > 0 then p_subtotal p / r_subtotal data else 0)"
  "p_tip (distribute data p) =
     r_tip data * (if r_subtotal data > 0 then p_subtotal p / r_subtotal data else 0)"
  "p_total (distribute data p) =
     p_subtotal p + p_tax (distribute data p) + p_tip (distribute data p)"
  by (simp_all add: distribute_def Let_def)

lemma peopleList_summary:
  "peopleList (summary data asg) = map (distribute data) (map_values (fst (collect data asg)))"
  by (simp add: summary_def split: prod.splits)


subsection \<open>Insertion-ordered sets and the reducer\<close>

lemma foldl_set_add_split:
  "foldl set_add (a @ b) xs = a @ foldl set_add b (filter (\<lambda>x. x \<notin> set a) xs)"
proof (induction xs arbitrary: b)
  case Nil
  show ?case by simp
next
  case (Cons x xs)
  show ?case
  proof (cases "x \<in> set a")
    case True
    then have "set_add (a @ b) x = a @ b" by (simp add: set_add_def)
    then show ?thesis using Cons [of b] True by simp
  next
    case False
    show ?thesis
    proof (cases "x \<in> set b")
      case True
      then have "set_add (a @ b) x = a @ b" "set_add b x = b" by (simp_all add: set_add_def)
      then show ?thesis using Cons [of b] False by simp
    next
      case xb: False
      then have "set_add (a @ b) x = a @ (b @ [x])" "set_add b x = b @ [x]"
        using False by (simp_all add: set_add_def)
      then show ?thesis using Cons [of "b @ [x]"] False by simp
    qed
  qed
qed

lemma foldl_set_add_acc: "foldl set_add a xs = a @ new_Set (filter (\<lambda>x. x \<notin> set a) xs)"
  using foldl_set_add_split [of a "[]" xs] by (simp add: new_Set_def)

lemma filter_set_add:
  "filter P (set_add acc x) = (if P x then set_add (filter P acc) x else filter P acc)"
  by (simp add: set_add_def)

lemma filter_foldl_set_add:
  "filter P (foldl set_add acc xs) = foldl set_add (filter P acc) (filter P xs)"
  by (induction xs arbitrary: acc) (simp_all add: filter_set_add)

lemma filter_new_Set: "filter P (new_Set xs) = new_Set (filter P xs)"
  by (simp add: new_Set_def filter_foldl_set_add)

lemma new_Set_Cons: "new_Set (x # xs) = x # filter (\<lambda>y. y \<noteq> x) (new_Set xs)"
proof -
  have "new_Set (x # xs) = foldl set_add [x] xs"
    by (simp add: new_Set_def set_add_def)
  also have "\<dots> = [x] @ new_Set (filter (\<lambda>y. y \<notin> set [x]) xs)"
    by (rule foldl_set_add_acc)
  finally show ?thesis by (simp add: filter_new_Set)
qed

lemma new_Set_keep_first: "new_Set xs = keep_first xs"
proof (induction xs)
  case Nil
  show ?case by (simp add: new_Set_def)
next
  case (Cons x xs)
  then show ?case by (simp add: new_Set_Cons)
qed

lemma set_keep_first: "set (keep_first xs) = set xs"
  by (induction xs) auto

lemma distinct_keep_first: "distinct (keep_first xs)"
  by (induction xs) (auto simp: set_keep_first)

lemma keep_first_distinct: "distinct xs \<Longrightarrow> keep_first xs = xs"
  by (induction xs) (auto simp: filter_id_conv)

lemma new_Set_append: "new_Set (cur @ ppl) = ordered_union cur ppl"
proof -
  have "new_Set (cur @ ppl) = foldl set_add (new_Set cur) ppl"
    by (simp add: new_Set_def)
  also have "\<dots> = new_Set cur @ new_Set (filter (\<lambda>x. x \<notin> set (new_Set cur)) ppl)"
    by (rule foldl_set_add_acc)
  finally show ?thesis
    by (simp add: ordered_union_def new_Set_keep_first set_keep_first)
qed

lemma set_ordered_union: "set (ordered_union cur ppl) = set cur \<union> set ppl"
  by (auto simp: ordered_union_def set_keep_first)

lemma distinct_ordered_union: "distinct (ordered_union cur ppl)"
  by (auto simp: ordered_union_def set_keep_first distinct_keep_first)

lemma ordered_union_absorb: "set ppl \<subseteq> set cur \<Longrightarrow> ordered_union cur ppl = keep_first cur"
proof -
  assume "set ppl \<subseteq> set cur"
  then have "filter (\<lambda>p. p \<notin> set cur) ppl = []"
    by (auto simp: filter_empty_conv)
  then show ?thesis by (simp add: ordered_union_def)
qed

lemma change_idem: "change op (change op cur) = change op cur"
proof (cases "action op")
  case Assign
  have "ordered_union (ordered_union cur (people op)) (people op) =
        keep_first (ordered_union cur (people op))"
    by (rule ordered_union_absorb) (simp add: set_ordered_union)
  then show ?thesis
    using Assign
    by (simp add: change_def new_Set_append keep_first_distinct distinct_ordered_union)
next
  case Unassign
  then show ?thesis by (simp add: change_def)
qed

lemma assigned_upd: "assigned (m(k \<mapsto> v)) k' = (if k' = k then v else assigned m k')"
  by (simp add: assigned_def)

lemma apply_item_eq: "apply_item op nxt i = nxt(i \<mapsto> change op (assigned nxt i))"
  by (cases "action op") (simp_all add: apply_item_def change_def)

lemma foldl_apply_item:
  "foldl (apply_item op) nxt ids k =
     (if k \<in> set ids then Some (change op (assigned nxt k)) else nxt k)"
proof (induction ids arbitrary: nxt)
  case Nil
  show ?case by simp
next
  case (Cons i ids)
  show ?case
    using Cons [of "apply_item op nxt i"]
    by (simp add: apply_item_eq assigned_upd change_idem)
qed

lemma apply_op_lookup:
  "apply_op nxt op k =
     (if k \<in> set (itemIds op) then Some (change op (assigned nxt k)) else nxt k)"
  by (simp add: apply_op_def foldl_apply_item)

lemma assigned_apply_op:
  "assigned (apply_op nxt op) k =
     (if k \<in> set (itemIds op) then change op (assigned nxt k) else assigned nxt k)"
  by (simp add: assigned_def apply_op_lookup)

lemma reducer_Nil: "reducer A [] = A"
  by (simp add: reducer_def)

lemma reducer_Cons: "reducer A (op # ops) = reducer (apply_op A op) ops"
  by (simp add: reducer_def)





lemma distinct_change: "distinct cur \<Longrightarrow> distinct (change op cur)"
  by (cases "action op") (simp_all add: change_def new_Set_append distinct_ordered_union)

lemma reducer_distinct:
  "(\<And>k. distinct (assigned A k)) \<Longrightarrow> distinct (assigned (reducer A ops) k)"
proof (induction ops arbitrary: A k)
  case Nil
  then show ?case by (simp add: reducer_Nil)
next
  case (Cons a ops)
  have "\<And>k. distinct (assigned (apply_op A a) k)"
    by (simp add: assigned_apply_op distinct_change Cons.prems)
  then show ?case
    by (simp add: reducer_Cons Cons.IH)
qed

subsection \<open>The scenario, and facts used by several properties\<close>

lemmas eval_defs = summary_def collect_def per_item_def assigned_def add_person_def
      distribute_def map_values_def scenario_receipt_def scenario_assignments_def
      burger_def fries_def Let_def


lemma distinct_count_one: "distinct xs \<Longrightarrow> x \<in> set xs \<Longrightarrow> count_list xs x = 1"
  by (induction xs) auto

lemma subtotal_of_quantity:
  "subtotal_of (foldl (add_person (item\<lparr>i_quantity := q\<rparr>) x) m ps) k =
   subtotal_of (foldl (add_person item x) m ps) k"
  by (simp add: foldl_add_person_subtotal_of)

lemma settlement_total_assigned:
  "sum_list (map p_subtotal (peopleList (summary data asg))) =
   sum_list (map i_price (filter (\<lambda>it. assigned asg (i_id it) \<noteq> []) (r_items data)))"
proof -
  have "sum_list (map p_subtotal (peopleList (summary data asg))) =
      totalAssignedSubtotal (fst (collect data asg))"
    by (simp add: peopleList_summary totalAssignedSubtotal_sum map_values_def comp_def
        distribute_fields)
  also have "\<dots> = sum_list (map i_price (filter (\<lambda>it. assigned asg (i_id it) \<noteq> []) (r_items data)))"
    by (simp add: collect_def total_foldl_per_item)
      (simp add: totalAssignedSubtotal_def map_values_def)
  finally show ?thesis .
qed


subsection \<open>The object store\<close>




lemma assigned_initialAssignments: "assigned (foldl (\<lambda>a item. a(i_id item \<mapsto> [])) A its) k =
    (if k \<in> i_id ` set its then [] else assigned A k)"
  by (induction its arbitrary: A) (auto simp: assigned_def)

lemma assigned_empty: "assigned Map.empty k = []"
  by (simp add: assigned_def)

lemma reachable_distinct:
  "distinct (assigned (reducer (initialAssignments its) ops) k)"
  by (rule reducer_distinct)
     (simp add: initialAssignments_def assigned_initialAssignments assigned_empty)

section \<open>Properties of the specification\<close>



text \<open>
  Claim C2. For an item whose assignee list \<open>ps\<close> has \<open>n \<ge> 1\<close> entries, the calculator
  adds \<open>item.price / n\<close> to a person's subtotal once for every occurrence of the
  person in \<open>ps\<close>, hence exactly once for every assignee of a duplicate-free list; the
  contributions of the assignees from that item add up to \<open>item.price\<close>, and so does
  the growth of the sum of all subtotals. The quantity of the item plays no part.
  Over a whole receipt the subtotals of the returned people add up to the prices of
  the assigned items. Arithmetic is exact here.
\<close>

theorem settlement_conservation:
  assumes "assigned asg (i_id item) = ps" and "ps \<noteq> []"
  shows "(\<forall>k. subtotal_of (fst (per_item asg (m, un) item)) k =
              subtotal_of m k + real (count_list ps k) * (i_price item / real (length ps)))
       \<and> (distinct ps \<longrightarrow> (\<forall>k \<in> set ps. subtotal_of (fst (per_item asg (m, un) item)) k =
              subtotal_of m k + i_price item / real (length ps)))
       \<and> (\<Sum>k \<in> set ps. subtotal_of (fst (per_item asg (m, un) item)) k - subtotal_of m k) =
              i_price item
       \<and> totalAssignedSubtotal (fst (per_item asg (m, un) item)) =
              totalAssignedSubtotal m + i_price item
       \<and> (\<forall>k. subtotal_of (fst (per_item asg (m, un) (item\<lparr>i_quantity := q\<rparr>))) k =
              subtotal_of (fst (per_item asg (m, un) item)) k)
       \<and> sum_list (map p_subtotal (peopleList (summary data asg))) =
              sum_list (map i_price
                (filter (\<lambda>it. assigned asg (i_id it) \<noteq> []) (r_items data)))"
proof -
  let ?x = "i_price item / real (length ps)"
  have len: "real (length ps) \<noteq> 0"
    using assms(2) by simp
  have step: "fst (per_item asg (m, un) item) = foldl (add_person item ?x) m ps"
    using assms by (simp add: per_item_assigned)
  have stepq: "fst (per_item asg (m, un) (item\<lparr>i_quantity := q\<rparr>)) =
      foldl (add_person (item\<lparr>i_quantity := q\<rparr>) ?x) m ps"
    using assms by (simp add: per_item_assigned)
  have each: "subtotal_of (fst (per_item asg (m, un) item)) k =
      subtotal_of m k + real (count_list ps k) * ?x" for k
    by (simp add: step foldl_add_person_subtotal_of)
  have one: "subtotal_of (fst (per_item asg (m, un) item)) k = subtotal_of m k + ?x"
    if "distinct ps" "k \<in> set ps" for k
    using that by (simp add: each distinct_count_one)
  have "(\<Sum>k \<in> set ps. subtotal_of (fst (per_item asg (m, un) item)) k - subtotal_of m k) =
      (\<Sum>k \<in> set ps. real (count_list ps k) * ?x)"
    by (simp add: each)
  also have "\<dots> = real (\<Sum>k \<in> set ps. count_list ps k) * ?x"
    by (simp only: of_nat_sum sum_distrib_right)
  also have "\<dots> = real (length ps) * ?x"
    by (simp add: sum_count_set)
  also have "\<dots> = i_price item"
    using len by simp
  finally have total: "(\<Sum>k \<in> set ps. subtotal_of (fst (per_item asg (m, un) item)) k -
      subtotal_of m k) = i_price item" .
  have whole: "totalAssignedSubtotal (fst (per_item asg (m, un) item)) =
      totalAssignedSubtotal m + i_price item"
    using len by (simp add: step foldl_add_person_total)
  have quant: "subtotal_of (fst (per_item asg (m, un) (item\<lparr>i_quantity := q\<rparr>))) k =
      subtotal_of (fst (per_item asg (m, un) item)) k" for k
    by (simp only: step stepq subtotal_of_quantity)
  note all = settlement_total_assigned [of data asg]
  from each one total whole quant all show ?thesis
    by blast
qed

text \<open>The fries of the scenario, shared by Tom and Ana, on an empty people map.\<close>

theorem settlement_conservation_witness:
  "assigned scenario_assignments (i_id fries) = [''Tom'', ''Ana''] \<and> [''Tom'', ''Ana''] \<noteq> []
   \<and> distinct [''Tom'', ''Ana'']
   \<and> subtotal_of (fst (per_item scenario_assignments ([], []) fries)) ''Ana'' = 3
   \<and> totalAssignedSubtotal (fst (per_item scenario_assignments ([], []) fries)) = 6"
proof -
  have h: "assigned scenario_assignments (i_id fries) = [''Tom'', ''Ana'']"
    by (simp add: assigned_def scenario_assignments_def fries_def)
  have n: "[''Tom'', ''Ana''] \<noteq> []" by simp
  show ?thesis
    using settlement_conservation [OF h n, of "[]" "[]" 1 scenario_receipt] h
    by (simp add: subtotal_of_def totalAssignedSubtotal_def map_values_def fries_def)
qed






text \<open>
  Claim C5. When \<open>receipt.subtotal\<close> is 0, every returned person has tax 0 and tip 0,
  and a total equal to the subtotal, whatever that subtotal is.
\<close>

theorem zero_subtotal_no_tax_no_tip:
  assumes "r_subtotal data = 0"
  shows "\<forall>P \<in> set (peopleList (summary data asg)).
           p_tax P = 0 \<and> p_tip P = 0 \<and> p_total P = p_subtotal P"
  using assms by (auto simp: peopleList_summary distribute_fields)

text \<open>The scenario with the stated subtotal set to 0: Tom keeps the subtotal 13.\<close>

theorem zero_subtotal_no_tax_no_tip_witness:
  "r_subtotal zero_subtotal_receipt = 0
   \<and> tom_degenerate \<in> set (peopleList (summary zero_subtotal_receipt scenario_assignments))
   \<and> p_subtotal tom_degenerate = 13
   \<and> p_tax tom_degenerate = 0 \<and> p_tip tom_degenerate = 0
   \<and> p_total tom_degenerate = p_subtotal tom_degenerate"
proof -
  have z: "r_subtotal zero_subtotal_receipt = 0"
    by (simp add: zero_subtotal_receipt_def)
  have mem: "tom_degenerate \<in> set (peopleList (summary zero_subtotal_receipt scenario_assignments))"
    by (simp add: eval_defs zero_subtotal_receipt_def tom_degenerate_def)
  show ?thesis
    using zero_subtotal_no_tax_no_tip [OF z, of scenario_assignments] z mem
    by (auto simp: tom_degenerate_def)
qed








text \<open>
  Claim C10. With a receipt loaded and a failed interpretation call, the command
  leaves the assignments and the receipt as they were, appends to the transcript the
  user's message followed by one assistant message with the fixed apology, and
  clears the processing flag. The failure ends with that command: a next command
  whose call succeeds applies its actions to the unchanged assignments and appends
  its own reply.
\<close>

theorem interpretation_failure_keeps_assignments:
  assumes "s_receiptData s = Some receipt"
  shows "s_assignments (handleSendMessage now (Inl err) s txt) = s_assignments s
       \<and> s_receiptData (handleSendMessage now (Inl err) s txt) = s_receiptData s
       \<and> s_messages (handleSendMessage now (Inl err) s txt) =
           s_messages s @
             [\<lparr>m_id = toString (now 0), m_role = User, m_text = txt, m_timestamp = now 1\<rparr>,
              \<lparr>m_id = toString (now 2 + 1), m_role = Assistant, m_text = apology,
               m_timestamp = now 3\<rparr>]
       \<and> s_isProcessing (handleSendMessage now (Inl err) s txt) = False
       \<and> s_assignments (handleSendMessage now' (Inr response)
             (handleSendMessage now (Inl err) s txt) txt') =
           reducer (s_assignments s) (assignments response)
       \<and> s_messages (handleSendMessage now' (Inr response)
             (handleSendMessage now (Inl err) s txt) txt') =
           s_messages (handleSendMessage now (Inl err) s txt) @
             [\<lparr>m_id = toString (now' 0), m_role = User, m_text = txt', m_timestamp = now' 1\<rparr>,
              \<lparr>m_id = toString (now' 2 + 1), m_role = Assistant, m_text = reply response,
               m_timestamp = now' 3\<rparr>]"
  using assms by (simp add: handleSendMessage_def Let_def)

text \<open>A failed command in a session on the scenario's receipt.\<close>

theorem interpretation_failure_keeps_assignments_witness:
  "s_receiptData session0 = Some scenario_receipt
   \<and> s_assignments (handleSendMessage (\<lambda>i. 1000) (Inl (Error ''No response from Gemini''))
        session0 ''fries are shared'') = scenario_assignments
   \<and> map m_text (s_messages (handleSendMessage (\<lambda>i. 1000)
        (Inl (Error ''No response from Gemini'')) session0 ''fries are shared'')) =
       [''fries are shared'', apology]"
proof -
  have h: "s_receiptData session0 = Some scenario_receipt"
    by (simp add: session0_def)
  show ?thesis
    using interpretation_failure_keeps_assignments [OF h, of "\<lambda>i. 1000"
        "Error ''No response from Gemini''" "''fries are shared''"] h
    by (simp add: session0_def)
qed

end
